theory Spec2Isabelle
  imports Complex_Main
begin

section \<open>JavaScript values\<close>

text \<open>
  The subject of a match and every pattern are plain JavaScript data. Numbers are the
  IEEE doubles seen through their order: the finite ones as reals (\<open>-0\<close> and \<open>+0\<close> are
  the same number under \<open>===\<close>, \<open>>=\<close> and \<open>\<le>\<close>), the two infinities, and \<open>NaN\<close>.
  Objects and arrays carry the reference that \<open>===\<close> compares. An object lists its own
  enumerable properties in the order \<open>Object.entries\<close> returns them, and the
  constructors on its prototype chain, which is all that \<open>instanceof\<close> looks at.
  Arrays are dense. Function values, accessors and members inherited from a prototype
  are outside the model.
\<close>

datatype number = NaN | Fin real | PosInf | NegInf

type_synonym ref = nat
type_synonym ctor = string

datatype jsval =
    Undefined
  | Null
  | Bool bool
  | Num number
  | Str string
  | Obj ref "ctor list" "(string \<times> jsval) list"
  | Arr ref "jsval list"

text \<open>The errors a call can raise: a \<open>TypeError\<close> of the runtime, an \<open>Error\<close> with
  its message, and \<open>Unmodelled\<close> where the answer depends on the conversion of a string
  or an object to a number, which the model does not cover.\<close>

datatype error = TypeError | Error string | Unmodelled

subsection \<open>Numbers\<close>

text \<open>\<open>a <= b\<close> on numbers; every comparison with \<open>NaN\<close> is false.\<close>

fun number_le :: "number \<Rightarrow> number \<Rightarrow> bool" where
  "number_le NaN _ = False"
| "number_le _ NaN = False"
| "number_le NegInf _ = True"
| "number_le _ PosInf = True"
| "number_le (Fin a) (Fin b) = (a \<le> b)"
| "number_le PosInf _ = False"
| "number_le (Fin a) NegInf = False"

text \<open>\<open>a < b\<close> on numbers.\<close>

fun number_lt :: "number \<Rightarrow> number \<Rightarrow> bool" where
  "number_lt NaN _ = False"
| "number_lt _ NaN = False"
| "number_lt (Fin a) (Fin b) = (a < b)"
| "number_lt NegInf NegInf = False"
| "number_lt NegInf _ = True"
| "number_lt PosInf _ = False"
| "number_lt (Fin a) PosInf = True"
| "number_lt (Fin a) NegInf = False"

text \<open>\<open>a === b\<close> on numbers: \<open>NaN\<close> is not equal to itself.\<close>

fun number_eq :: "number \<Rightarrow> number \<Rightarrow> bool" where
  "number_eq NaN _ = False"
| "number_eq _ NaN = False"
| "number_eq a b = (a = b)"

subsection \<open>Operators of the language\<close>

text \<open>\<open>a === b\<close>: primitives by value, objects and arrays by reference.\<close>

fun strict_eq :: "jsval \<Rightarrow> jsval \<Rightarrow> bool" where
  "strict_eq Undefined Undefined = True"
| "strict_eq Null Null = True"
| "strict_eq (Bool a) (Bool b) = (a = b)"
| "strict_eq (Num a) (Num b) = number_eq a b"
| "strict_eq (Str a) (Str b) = (a = b)"
| "strict_eq (Obj r _ _) (Obj r' _ _) = (r = r')"
| "strict_eq (Arr r _) (Arr r' _) = (r = r')"
| "strict_eq _ _ = False"

text \<open>\<open>typeof v === 'object' && v !== null\<close>.\<close>

fun is_object :: "jsval \<Rightarrow> bool" where
  "is_object (Obj _ _ _) = True"
| "is_object (Arr _ _) = True"
| "is_object _ = False"

text \<open>\<open>Array.isArray(v)\<close>, and the elements of an array.\<close>

fun is_array :: "jsval \<Rightarrow> bool" where
  "is_array (Arr _ _) = True"
| "is_array _ = False"

fun array_elems :: "jsval \<Rightarrow> jsval list" where
  "array_elems (Arr _ vs) = vs"
| "array_elems _ = []"

text \<open>\<open>typeof v === 'number'\<close>.\<close>

fun is_number :: "jsval \<Rightarrow> bool" where
  "is_number (Num _) = True"
| "is_number _ = False"

text \<open>The truthiness that \<open>if (v)\<close> tests.\<close>

fun truthy :: "jsval \<Rightarrow> bool" where
  "truthy Undefined = False"
| "truthy Null = False"
| "truthy (Bool b) = b"
| "truthy (Num NaN) = False"
| "truthy (Num (Fin x)) = (x \<noteq> 0)"
| "truthy (Num _) = True"
| "truthy (Str s) = (s \<noteq> [])"
| "truthy (Obj _ _ _) = True"
| "truthy (Arr _ _) = True"

text \<open>\<open>v instanceof C\<close>: only objects have a prototype chain; an array's chain holds
  \<open>Array\<close> and \<open>Object\<close>.\<close>

fun instance_of :: "jsval \<Rightarrow> ctor \<Rightarrow> bool" where
  "instance_of (Obj _ cs _) c = (c \<in> set cs)"
| "instance_of (Arr _ _) c = (c = ''Array'' \<or> c = ''Object'')"
| "instance_of _ _ = False"

subsection \<open>Property keys of arrays\<close>

text \<open>An array index as a property key is its canonical decimal numeral: no sign, no
  leading zero.\<close>

definition digit_of :: "char \<Rightarrow> nat option" where
  "digit_of c = map_of
     [(CHR ''0'', 0), (CHR ''1'', 1), (CHR ''2'', 2), (CHR ''3'', 3), (CHR ''4'', 4),
      (CHR ''5'', 5), (CHR ''6'', 6), (CHR ''7'', 7), (CHR ''8'', 8), (CHR ''9'', 9)] c"

fun digits_value :: "nat \<Rightarrow> string \<Rightarrow> nat option" where
  "digits_value acc [] = Some acc"
| "digits_value acc (c # cs) =
     (case digit_of c of None \<Rightarrow> None | Some d \<Rightarrow> digits_value (10 * acc + d) cs)"

definition array_index :: "string \<Rightarrow> nat option" where
  "array_index k =
     (if k = [] then None
      else if hd k = CHR ''0'' \<and> tl k \<noteq> [] then None
      else digits_value 0 k)"

definition digit_char :: "nat \<Rightarrow> char" where
  "digit_char d = ''0123456789'' ! d"

fun index_key :: "nat \<Rightarrow> string" where
  "index_key n = (if n < 10 then [digit_char n] else index_key (n div 10) @ [digit_char (n mod 10)])"

declare index_key.simps [simp del]

text \<open>\<open>xs[i]\<close>: reading past the end gives \<open>undefined\<close>.\<close>

definition at_index :: "jsval list \<Rightarrow> nat \<Rightarrow> jsval" where
  "at_index xs i = (if i < length xs then xs ! i else Undefined)"

text \<open>\<open>xs.length\<close> as a value.\<close>

definition length_value :: "'a list \<Rightarrow> jsval" where
  "length_value xs = Num (Fin (real (length xs)))"

subsection \<open>Properties\<close>

text \<open>\<open>k in v\<close> for an object or an array \<open>v\<close> (the source applies \<open>in\<close> to nothing
  else).\<close>

fun has_prop :: "jsval \<Rightarrow> string \<Rightarrow> bool" where
  "has_prop (Obj _ _ props) k = (map_of props k \<noteq> None)"
| "has_prop (Arr _ vs) k =
     (k = ''length'' \<or> (case array_index k of None \<Rightarrow> False | Some i \<Rightarrow> i < length vs))"
| "has_prop _ _ = False"

text \<open>\<open>v[k]\<close>, also written \<open>v.k\<close>, for \<open>v\<close> neither \<open>undefined\<close> nor \<open>null\<close>: a missing
  property reads as \<open>undefined\<close>.\<close>

fun get_prop :: "jsval \<Rightarrow> string \<Rightarrow> jsval" where
  "get_prop (Obj _ _ props) k = (case map_of props k of None \<Rightarrow> Undefined | Some v \<Rightarrow> v)"
| "get_prop (Arr _ vs) k =
     (if k = ''length'' then length_value vs
      else case array_index k of None \<Rightarrow> Undefined | Some i \<Rightarrow> at_index vs i)"
| "get_prop (Str s) k =
     (if k = ''length'' then length_value s
      else case array_index k of
             None \<Rightarrow> Undefined
           | Some i \<Rightarrow> if i < length s then Str [s ! i] else Undefined)"
| "get_prop _ _ = Undefined"

text \<open>\<open>Object.entries(v)\<close> for an object or an array.\<close>

fun entries :: "jsval \<Rightarrow> (string \<times> jsval) list" where
  "entries (Obj _ _ props) = props"
| "entries (Arr _ vs) = map (\<lambda>(i, v). (index_key i, v)) (enumerate 0 vs)"
| "entries _ = []"

section \<open>The structural matcher\<close>

subsection \<open>Array methods with a callback that may throw\<close>

text \<open>\<open>xs.every(f)\<close> calls \<open>f(x, i)\<close> from the left and stops at the first call that
  returns false or throws; \<open>xs.some(f)\<close> stops at the first call that returns true or
  throws.\<close>

fun every_from :: "nat \<Rightarrow> ('a \<Rightarrow> nat \<Rightarrow> error + bool) \<Rightarrow> 'a list \<Rightarrow> error + bool" where
  "every_from i f [] = Inr True"
| "every_from i f (x # xs) =
     (case f x i of
        Inl e \<Rightarrow> Inl e
      | Inr b \<Rightarrow> if b then every_from (Suc i) f xs else Inr False)"

definition every :: "('a \<Rightarrow> nat \<Rightarrow> error + bool) \<Rightarrow> 'a list \<Rightarrow> error + bool" where
  "every f xs = every_from 0 f xs"

fun some_from :: "nat \<Rightarrow> ('a \<Rightarrow> nat \<Rightarrow> error + bool) \<Rightarrow> 'a list \<Rightarrow> error + bool" where
  "some_from i f [] = Inr False"
| "some_from i f (x # xs) =
     (case f x i of
        Inl e \<Rightarrow> Inl e
      | Inr b \<Rightarrow> if b then Inr True else some_from (Suc i) f xs)"

definition some :: "('a \<Rightarrow> nat \<Rightarrow> error + bool) \<Rightarrow> 'a list \<Rightarrow> error + bool" where
  "some f xs = some_from 0 f xs"

lemma every_from_cong:
  "(\<And>x i. x \<in> set xs \<Longrightarrow> f x i = g x i) \<Longrightarrow> every_from n f xs = every_from n g xs"
  by (induction xs arbitrary: n) (auto split: sum.splits)

lemma every_cong [fundef_cong]:
  "xs = ys \<Longrightarrow> (\<And>x i. x \<in> set ys \<Longrightarrow> f x i = g x i) \<Longrightarrow> every f xs = every g ys"
  unfolding every_def using every_from_cong by blast

subsection \<open>Sub-patterns are smaller than the pattern\<close>

lemma size_map_of:
  "map_of props k = Some v \<Longrightarrow> size v < Suc (size_list (size_prod (\<lambda>_. 0) size) props)"
  by (induction props) (auto split: if_splits)

lemma size_entry:
  "(k, v) \<in> set props \<Longrightarrow> size v < Suc (size_list (size_prod (\<lambda>_. 0) size) props)"
  by (induction props) auto

lemma size_elem: "v \<in> set vs \<Longrightarrow> size v < Suc (size_list size vs)"
  by (induction vs) auto

lemma size_get_prop: "size (get_prop p k) \<le> size p"
proof (cases p)
  case (Obj r cs props)
  then show ?thesis using size_map_of [of props k] by (auto split: option.splits)
next
  case (Arr r vs)
  then show ?thesis using size_elem [of _ vs]
    by (auto simp: length_value_def at_index_def split: option.splits)
       (metis less_imp_le_nat nth_mem)
qed (auto simp: length_value_def split: option.splits)

lemma size_entries: "(k, v) \<in> set (entries p) \<Longrightarrow> size v < size p"
proof (cases p)
  case (Obj r cs props)
  assume "(k, v) \<in> set (entries p)"
  with Obj show ?thesis using size_entry [of k v props] by simp
next
  case (Arr r vs)
  assume "(k, v) \<in> set (entries p)"
  with Arr have "v \<in> set vs" by (auto simp: in_set_enumerate_eq)
  with Arr show ?thesis using size_elem [of v vs] by simp
qed auto

lemma size_elements: "get_prop p k = Arr r es \<Longrightarrow> e \<in> set es \<Longrightarrow> size e < size p"
  using size_get_prop [of p k] size_elem [of e es] by simp

subsection \<open>isDeepMatch, isArrayPattern, isArrayMatch\<close>

text \<open>\<open>n < l\<close> for an array length \<open>n\<close> and the \<open>length\<close> property \<open>l\<close> of a value that is
  not an array: \<open>undefined\<close> converts to \<open>NaN\<close>, \<open>null\<close> to \<open>0\<close>, a boolean to \<open>0\<close> or
  \<open>1\<close>. A string, an object or an array would be converted to a number by parsing or
  by its own conversion methods; there the result is \<open>Unmodelled\<close>.\<close>

definition lt_length :: "nat \<Rightarrow> jsval \<Rightarrow> error + bool" where
  "lt_length n l =
     (case l of
        Undefined \<Rightarrow> Inr False
      | Null \<Rightarrow> Inr False
      | Bool b \<Rightarrow> Inr (b \<and> n = 0)
      | Num x \<Rightarrow> Inr (number_lt (Fin (real n)) x)
      | _ \<Rightarrow> Inl Unmodelled)"

definition isArrayPattern :: "jsval \<Rightarrow> bool" where
  "isArrayPattern pattern =
     (is_object pattern \<and> (has_prop pattern ''length'' \<or> has_prop pattern ''elements''))"

text \<open>
  The two matchers follow the source statement by statement. In \<open>isArrayMatch\<close>,
  \<open>pattern.length\<close> on \<open>undefined\<close> or \<open>null\<close> is a \<open>TypeError\<close>; a truthy
  \<open>pattern.elements\<close> that is not an array has no \<open>every\<close> method, so the call is a
  \<open>TypeError\<close> unless the comparison of the lengths has returned false before.
\<close>

function isDeepMatch :: "jsval \<Rightarrow> jsval \<Rightarrow> error + bool"
  and isArrayMatch :: "jsval list \<Rightarrow> jsval \<Rightarrow> error + bool" where
  "isDeepMatch value pattern =
     (if \<not> is_object value then Inr (strict_eq value pattern)
      else if is_array value \<and> isArrayPattern pattern
        then isArrayMatch (array_elems value) pattern
      else if is_object pattern
        then every (\<lambda>(key, val) _.
               if \<not> has_prop value key then Inr False
               else isDeepMatch (get_prop value key) val) (entries pattern)
      else Inr False)"
| "isArrayMatch value pattern =
     (if pattern = Undefined \<or> pattern = Null then Inl TypeError
      else if get_prop pattern ''length'' \<noteq> Undefined
              \<and> \<not> strict_eq (length_value value) (get_prop pattern ''length'')
        then Inr False
      else if truthy (get_prop pattern ''elements'')
        then (case get_prop pattern ''elements'' of
                Arr r es \<Rightarrow>
                  if length value < length es then Inr False
                  else every (\<lambda>elem i. isDeepMatch (at_index value i) elem) es
              | other \<Rightarrow>
                  (case lt_length (length value) (get_prop other ''length'') of
                     Inl e \<Rightarrow> Inl e
                   | Inr b \<Rightarrow> if b then Inr False else Inl TypeError))
      else Inr True)"
  by pat_completeness auto
termination
  apply (relation "measure (\<lambda>x. case x of Inl (v, p) \<Rightarrow> 2 * size p + 1
                                        | Inr (vs, p) \<Rightarrow> 2 * size p)")
  apply (auto dest: size_entries size_elements)
  done

declare isDeepMatch.simps [simp del] isArrayMatch.simps [simp del]

section \<open>The match session\<close>

text \<open>
  The fields of class \<open>Match\<close>, and the handler calls made so far: a handler is a
  callback of the caller whose result the class ignores, so a call \<open>fn(v)\<close> is recorded
  as the pair of the handler and its argument. Handlers are taken to return normally
  and to leave the subject as it is. The field \<open>value\<close> and the method \<open>with\<close> are
  written \<open>value'\<close> and \<open>with'\<close>, their names being keywords here.
\<close>

record 'h Match =
  value' :: jsval
  matched :: bool
  exhaustiveCheck :: bool
  invoked :: "('h \<times> jsval) list"

text \<open>\<open>match(value)\<close>: \<open>new Match(value)\<close>.\<close>

definition match :: "jsval \<Rightarrow> 'h Match" where
  "match v = \<lparr>value' = v, matched = False, exhaustiveCheck = True, invoked = []\<rparr>"

text \<open>\<open>fn(v)\<close>.\<close>

definition call :: "'h \<Rightarrow> jsval \<Rightarrow> 'h Match \<Rightarrow> 'h Match" where
  "call fn v m = m\<lparr>invoked := invoked m @ [(fn, v)]\<rparr>"

text \<open>\<open>a && b\<close> where evaluating \<open>b\<close> may throw: \<open>b\<close> is not evaluated when \<open>a\<close> is
  false.\<close>

definition and_also :: "bool \<Rightarrow> error + bool \<Rightarrow> error + bool" where
  "and_also a b = (if a then b else Inr False)"

text \<open>The body shared by the clause methods: \<open>if (cond) { this.matched = true;
  fn(this.value); } return this;\<close> where evaluating \<open>cond\<close> may throw.\<close>

definition when_then :: "error + bool \<Rightarrow> 'h \<Rightarrow> 'h Match \<Rightarrow> error + 'h Match" where
  "when_then cond fn m =
     (case cond of
        Inl e \<Rightarrow> Inl e
      | Inr b \<Rightarrow> Inr (if b then call fn (value' m) (m\<lparr>matched := True\<rparr>) else m))"

definition withShape :: "jsval \<Rightarrow> 'h \<Rightarrow> 'h Match \<Rightarrow> error + 'h Match" where
  "withShape shape fn m =
     when_then (and_also (\<not> matched m) (isDeepMatch (value' m) shape)) fn m"

definition withArray :: "jsval \<Rightarrow> 'h \<Rightarrow> 'h Match \<Rightarrow> error + 'h Match" where
  "withArray pattern fn m =
     when_then (and_also (\<not> matched m \<and> is_array (value' m))
                  (isArrayMatch (array_elems (value' m)) pattern)) fn m"

text \<open>A predicate of the caller returns a boolean or throws.\<close>

type_synonym predicate = "jsval \<Rightarrow> error + bool"

definition withAll :: "predicate list \<Rightarrow> 'h \<Rightarrow> 'h Match \<Rightarrow> error + 'h Match" where
  "withAll patterns fn m =
     when_then (and_also (\<not> matched m) (every (\<lambda>p _. p (value' m)) patterns)) fn m"

definition withAny :: "predicate list \<Rightarrow> 'h \<Rightarrow> 'h Match \<Rightarrow> error + 'h Match" where
  "withAny patterns fn m =
     when_then (and_also (\<not> matched m) (some (\<lambda>p _. p (value' m)) patterns)) fn m"

definition withInstance :: "ctor \<Rightarrow> 'h \<Rightarrow> 'h Match \<Rightarrow> error + 'h Match" where
  "withInstance constructor fn m =
     when_then (Inr (\<not> matched m \<and> instance_of (value' m) constructor)) fn m"

definition with' :: "jsval \<Rightarrow> 'h \<Rightarrow> 'h Match \<Rightarrow> error + 'h Match" where
  "with' pattern fn m =
     when_then (Inr (\<not> matched m \<and> strict_eq (value' m) pattern)) fn m"

text \<open>\<open>this.value >= start && this.value <= end\<close> once \<open>this.value\<close> is a number.\<close>

fun in_range :: "jsval \<Rightarrow> number \<Rightarrow> number \<Rightarrow> bool" where
  "in_range (Num n) start end' = (number_le start n \<and> number_le n end')"
| "in_range _ _ _ = False"

definition withRange :: "number \<Rightarrow> number \<Rightarrow> 'h \<Rightarrow> 'h Match \<Rightarrow> error + 'h Match" where
  "withRange start end' fn m =
     when_then (Inr (is_number (value' m) \<and> in_range (value' m) start end')) fn m"

text \<open>\<open>otherwise\<close> returns nothing: the result is the session as the call leaves it,
  and the error if it throws.\<close>

definition otherwise :: "'h \<Rightarrow> 'h Match \<Rightarrow> 'h Match \<times> error option" where
  "otherwise fn m =
     (let m' = (if \<not> matched m then call fn (value' m) m else m)
      in (m', if exhaustiveCheck m' \<and> \<not> matched m'
              then Some (Error ''Non-exhaustive pattern matching'') else None))"

definition nonExhaustive :: "'h Match \<Rightarrow> 'h Match" where
  "nonExhaustive m = m\<lparr>exhaustiveCheck := False\<rparr>"

subsection \<open>Chains of calls\<close>

text \<open>A fluent chain \<open>match(v).c1(...).c2(...) ... .otherwise(fb)\<close> is the list of its
  calls. The six clause methods that test \<open>matched\<close> are one type, so that a statement
  about them quantifies over lists of it.\<close>

datatype 'h clause =
    With jsval 'h
  | WithShape jsval 'h
  | WithArray jsval 'h
  | WithAll "predicate list" 'h
  | WithAny "predicate list" 'h
  | WithInstance ctor 'h

datatype 'h step = Clause "'h clause" | WithRange number number 'h | NonExhaustive

fun apply_clause :: "'h clause \<Rightarrow> 'h Match \<Rightarrow> error + 'h Match" where
  "apply_clause (With pattern fn) m = with' pattern fn m"
| "apply_clause (WithShape shape fn) m = withShape shape fn m"
| "apply_clause (WithArray pattern fn) m = withArray pattern fn m"
| "apply_clause (WithAll patterns fn) m = withAll patterns fn m"
| "apply_clause (WithAny patterns fn) m = withAny patterns fn m"
| "apply_clause (WithInstance constructor fn) m = withInstance constructor fn m"

fun apply_step :: "'h step \<Rightarrow> 'h Match \<Rightarrow> error + 'h Match" where
  "apply_step (Clause c) m = apply_clause c m"
| "apply_step (WithRange start end' fn) m = withRange start end' fn m"
| "apply_step NonExhaustive m = Inr (nonExhaustive m)"

text \<open>A call that throws ends the chain: the calls after it are never made. It throws
  while it evaluates its condition, before it changes the session.\<close>

fun chain :: "'h step list \<Rightarrow> 'h Match \<Rightarrow> 'h Match \<times> error option" where
  "chain [] m = (m, None)"
| "chain (c # cs) m =
     (case apply_step c m of
        Inl e \<Rightarrow> (m, Some e)
      | Inr m' \<Rightarrow> chain cs m')"

definition run :: "jsval \<Rightarrow> 'h step list \<Rightarrow> 'h \<Rightarrow> 'h Match \<times> error option" where
  "run v cs fallback =
     (case chain cs (match v) of
        (m, Some e) \<Rightarrow> (m, Some e)
      | (m, None) \<Rightarrow> otherwise fallback m)"

text \<open>The condition a clause tests on the subject, and its handler.\<close>

fun clause_pred :: "'h clause \<Rightarrow> jsval \<Rightarrow> error + bool" where
  "clause_pred (With pattern fn) v = Inr (strict_eq v pattern)"
| "clause_pred (WithShape shape fn) v = isDeepMatch v shape"
| "clause_pred (WithArray pattern fn) v =
     and_also (is_array v) (isArrayMatch (array_elems v) pattern)"
| "clause_pred (WithAll patterns fn) v = every (\<lambda>p _. p v) patterns"
| "clause_pred (WithAny patterns fn) v = some (\<lambda>p _. p v) patterns"
| "clause_pred (WithInstance constructor fn) v = Inr (instance_of v constructor)"

fun handler_of :: "'h clause \<Rightarrow> 'h" where
  "handler_of (With pattern fn) = fn"
| "handler_of (WithShape shape fn) = fn"
| "handler_of (WithArray pattern fn) = fn"
| "handler_of (WithAll patterns fn) = fn"
| "handler_of (WithAny patterns fn) = fn"
| "handler_of (WithInstance constructor fn) = fn"

text \<open>The session after a clause with handler \<open>fn\<close> has fired on \<open>m\<close>.\<close>

definition fired :: "'h \<Rightarrow> 'h Match \<Rightarrow> 'h Match" where
  "fired fn m = m\<lparr>matched := True, invoked := invoked m @ [(fn, value' m)]\<rparr>"

text \<open>The handlers of the \<open>withRange\<close> calls in a chain whose bounds hold the subject,
  in the order of the calls.\<close>

fun range_hits :: "'h step list \<Rightarrow> jsval \<Rightarrow> 'h list" where
  "range_hits [] v = []"
| "range_hits (WithRange start end' fn # cs) v =
     (if in_range v start end' then fn # range_hits cs v else range_hits cs v)"
| "range_hits (_ # cs) v = range_hits cs v"

text \<open>The partial-shape criterion: every entry of the pattern names a key that exists
  in the value, and the value at that key deep-matches the entry's sub-pattern.\<close>

definition entries_match :: "jsval \<Rightarrow> jsval \<Rightarrow> bool" where
  "entries_match value pattern =
     list_all (\<lambda>(key, sub). has_prop value key \<and> isDeepMatch (get_prop value key) sub = Inr True)
       (entries pattern)"

section \<open>Lemmas about every\<close>

lemma every_from_True:
  "every_from n f xs = Inr True \<longleftrightarrow> (\<forall>i<length xs. f (xs ! i) (n + i) = Inr True)"
proof (induction xs arbitrary: n)
  case Nil
  show ?case by simp
next
  case (Cons x xs)
  have "(\<forall>i<length (x # xs). f ((x # xs) ! i) (n + i) = Inr True) \<longleftrightarrow>
        f x n = Inr True \<and> (\<forall>i<length xs. f (xs ! i) (Suc n + i) = Inr True)"
    by (auto simp: less_Suc_eq_0_disj)
  with Cons.IH [of "Suc n"] show ?case
    by (auto split: sum.splits)
qed

lemma every_True_index:
  "every f xs = Inr True \<longleftrightarrow> (\<forall>i<length xs. f (xs ! i) i = Inr True)"
  by (simp add: every_def every_from_True)

lemma every_True_set:
  "every (\<lambda>x _. g x) xs = Inr True \<longleftrightarrow> (\<forall>x\<in>set xs. g x = Inr True)"
  by (simp add: every_True_index all_set_conv_all_nth)

section \<open>Lemmas about the clause methods\<close>

lemma apply_clause_pred:
  "apply_clause c m =
     when_then (and_also (\<not> matched m) (clause_pred c (value' m))) (handler_of c) m"
  by (cases c)
     (auto simp: with'_def withShape_def withArray_def withAll_def withAny_def
        withInstance_def and_also_def when_then_def)

lemma apply_clause_matched: "matched m \<Longrightarrow> apply_clause c m = Inr m"
  by (simp add: apply_clause_pred and_also_def when_then_def)

lemma apply_clause_False:
  "clause_pred c (value' m) = Inr False \<Longrightarrow> apply_clause c m = Inr m"
  by (simp add: apply_clause_pred and_also_def when_then_def)

lemma apply_clause_True:
  "\<not> matched m \<Longrightarrow> clause_pred c (value' m) = Inr True \<Longrightarrow>
     apply_clause c m = Inr (fired (handler_of c) m)"
  by (simp add: apply_clause_pred and_also_def when_then_def fired_def call_def)

lemma apply_clause_throws:
  "\<not> matched m \<Longrightarrow> clause_pred c (value' m) = Inl e \<Longrightarrow> apply_clause c m = Inl e"
  by (simp add: apply_clause_pred and_also_def when_then_def)

lemma chain_clauses_matched: "matched m \<Longrightarrow> chain (map Clause cs) m = (m, None)"
  by (induction cs) (simp_all add: apply_clause_matched)

lemma chain_clauses_False:
  "\<forall>c\<in>set cs. clause_pred c (value' m) = Inr False \<Longrightarrow> chain (map Clause cs) m = (m, None)"
  by (induction cs) (simp_all add: apply_clause_False)

lemma chain_append_False:
  "\<forall>c\<in>set pre. clause_pred c (value' m) = Inr False \<Longrightarrow>
     chain (map Clause pre @ ms) m = chain ms m"
  by (induction pre) (simp_all add: apply_clause_False)

lemma fired_matched: "matched (fired fn m)"
  by (simp add: fired_def)

lemma chain_clauses_at_most_one:
  "\<exists>hs. invoked (fst (chain (map Clause cs) m)) = invoked m @ hs \<and> length hs \<le> 1"
proof (induction cs)
  case Nil
  show ?case by simp
next
  case (Cons c cs)
  show ?case
  proof (cases "matched m")
    case True
    then show ?thesis using chain_clauses_matched [of m "c # cs"] by simp
  next
    case False
    show ?thesis
    proof (cases "clause_pred c (value' m)")
      case (Inl e)
      with False show ?thesis by (simp add: apply_clause_throws)
    next
      case (Inr b)
      show ?thesis
      proof (cases b)
        case True
        with Inr False have "chain (map Clause (c # cs)) m = (fired (handler_of c) m, None)"
          by (simp add: apply_clause_True chain_clauses_matched fired_matched)
        then show ?thesis by (simp add: fired_def)
      next
        case False
        with Inr Cons.IH show ?thesis by (simp add: apply_clause_False)
      qed
    qed
  qed
qed

lemma withRange_in: "in_range (value' m) start end' \<Longrightarrow> withRange start end' fn m = Inr (fired fn m)"
  by (cases "value' m") (simp_all add: withRange_def when_then_def fired_def call_def)

lemma withRange_out: "\<not> in_range (value' m) start end' \<Longrightarrow> withRange start end' fn m = Inr m"
  by (simp add: withRange_def when_then_def)

lemma in_range_iff:
  "in_range v start end' \<longleftrightarrow> (\<exists>n. v = Num n \<and> number_le start n \<and> number_le n end')"
  by (cases v) simp_all

lemma apply_clause_result:
  "apply_clause c m = Inr m' \<Longrightarrow> m' = m \<or> m' = fired (handler_of c) m"
  by (auto simp: apply_clause_pred when_then_def fired_def call_def split: sum.splits if_splits)

lemma apply_step_result:
  "apply_step s m = Inr m' \<Longrightarrow> m' = m \<or> (\<exists>fn. m' = fired fn m) \<or> m' = nonExhaustive m"
proof (cases s)
  case (Clause c)
  assume "apply_step s m = Inr m'"
  with Clause show ?thesis using apply_clause_result [of c m m'] by auto
next
  case (WithRange start end' fn)
  assume "apply_step s m = Inr m'"
  with WithRange show ?thesis
    using withRange_in [of m start end' fn] withRange_out [of m start end' fn]
    by (cases "in_range (value' m) start end'") auto
next
  case NonExhaustive
  assume "apply_step s m = Inr m'"
  with NonExhaustive show ?thesis by simp
qed

lemma apply_step_frame:
  assumes "apply_step s m = Inr m'"
  shows "value' m' = value' m" and "matched m \<Longrightarrow> matched m'"
    and "\<not> exhaustiveCheck m \<Longrightarrow> \<not> exhaustiveCheck m'"
  using apply_step_result [OF assms] by (auto simp: fired_def nonExhaustive_def)

lemma chain_frame:
  "chain cs m = (m', r) \<Longrightarrow>
     value' m' = value' m \<and> (matched m \<longrightarrow> matched m') \<and>
     (\<not> exhaustiveCheck m \<longrightarrow> \<not> exhaustiveCheck m')"
proof (induction cs arbitrary: m)
  case Nil
  then show ?case by simp
next
  case (Cons c cs)
  show ?case
  proof (cases "apply_step c m")
    case (Inl e)
    with Cons.prems show ?thesis by simp
  next
    case (Inr m1)
    with Cons.prems have "chain cs m1 = (m', r)" by simp
    from Cons.IH [OF this] apply_step_frame [OF Inr] show ?thesis by simp
  qed
qed

lemma chain_nonExhaustive:
  "NonExhaustive \<in> set cs \<Longrightarrow> chain cs m = (m', None) \<Longrightarrow> \<not> exhaustiveCheck m'"
proof (induction cs arbitrary: m)
  case Nil
  then show ?case by simp
next
  case (Cons c cs)
  show ?case
  proof (cases "apply_step c m")
    case (Inl e)
    with Cons.prems show ?thesis by simp
  next
    case (Inr m1)
    with Cons.prems have rest: "chain cs m1 = (m', None)" by simp
    show ?thesis
    proof (cases "c = NonExhaustive")
      case True
      with Inr have "\<not> exhaustiveCheck m1" by (auto simp: nonExhaustive_def)
      with chain_frame [OF rest] show ?thesis by simp
    next
      case False
      with Cons.prems have "NonExhaustive \<in> set cs" by simp
      from Cons.IH [OF this rest] show ?thesis .
    qed
  qed
qed

lemma apply_step_matched:
  assumes "matched m"
  shows "\<exists>m1. apply_step s m = Inr m1 \<and> matched m1 \<and> value' m1 = value' m \<and>
           invoked m1 = invoked m @ map (\<lambda>h. (h, value' m)) (range_hits [s] (value' m))"
proof (cases s)
  case (Clause c)
  with assms show ?thesis by (simp add: apply_clause_matched)
next
  case (WithRange start end' fn)
  with assms show ?thesis
    using withRange_in [of m start end' fn] withRange_out [of m start end' fn]
    by (cases "in_range (value' m) start end'") (auto simp: fired_def)
next
  case NonExhaustive
  with assms show ?thesis by (simp add: nonExhaustive_def)
qed

lemma range_hits_Cons: "range_hits (s # cs) v = range_hits [s] v @ range_hits cs v"
  by (cases s) auto

lemma chain_matched:
  "matched m \<Longrightarrow> chain cs m = (m', r) \<Longrightarrow>
     r = None \<and> matched m' \<and>
     invoked m' = invoked m @ map (\<lambda>h. (h, value' m)) (range_hits cs (value' m))"
proof (induction cs arbitrary: m)
  case Nil
  then show ?case by simp
next
  case (Cons s cs)
  from apply_step_matched [OF Cons.prems(1), of s] obtain m1 where
    m1: "apply_step s m = Inr m1" "matched m1" "value' m1 = value' m"
        "invoked m1 = invoked m @ map (\<lambda>h. (h, value' m)) (range_hits [s] (value' m))"
    by blast
  with Cons.prems have "chain cs m1 = (m', r)" by simp
  from Cons.IH [OF m1(2) this] m1(3,4) show ?case
    by (simp add: range_hits_Cons [of s cs])
qed

lemma otherwise_matched: "matched m \<Longrightarrow> otherwise fb m = (m, None)"
  by (simp add: otherwise_def)

section \<open>Lemmas about the matchers\<close>

lemma strict_eq_object_primitive: "is_object p \<Longrightarrow> \<not> is_object v \<Longrightarrow> \<not> strict_eq v p"
  by (cases v; cases p) simp_all

lemma strict_eq_length_value: "strict_eq (length_value xs) v \<longleftrightarrow> v = length_value xs"
proof (cases v)
  case (Num n)
  then show ?thesis by (cases n) (auto simp: length_value_def)
qed (simp_all add: length_value_def)

lemma isDeepMatch_by_entries:
  assumes "is_object value" "is_object pattern" "\<not> (is_array value \<and> isArrayPattern pattern)"
  shows "(isDeepMatch value pattern = Inr True) = entries_match value pattern"
proof -
  let ?f = "\<lambda>(key, val). if \<not> has_prop value key then Inr False
                          else isDeepMatch (get_prop value key) val"
  have "isDeepMatch value pattern = every (\<lambda>x _. ?f x) (entries pattern)"
    using assms by (subst isDeepMatch.simps) (auto simp: case_prod_unfold)
  then have "(isDeepMatch value pattern = Inr True) = (\<forall>x\<in>set (entries pattern). ?f x = Inr True)"
    by (simp only: every_True_set)
  also have "\<dots> = entries_match value pattern"
    by (auto simp: entries_match_def list_all_iff split: if_splits)
  finally show ?thesis .
qed

lemma isArrayMatch_length_differs:
  assumes "is_object pattern"
    and "get_prop pattern ''length'' \<noteq> Undefined"
    and "get_prop pattern ''length'' \<noteq> length_value value"
  shows "isArrayMatch value pattern = Inr False"
  using assms by (subst isArrayMatch.simps) (auto simp: strict_eq_length_value)

lemma isArrayMatch_elements:
  assumes "is_object pattern"
    and "get_prop pattern ''length'' = Undefined \<or> get_prop pattern ''length'' = length_value value"
    and "get_prop pattern ''elements'' = Arr r es"
  shows "isArrayMatch value pattern =
           (if length value < length es then Inr False
            else every (\<lambda>elem i. isDeepMatch (at_index value i) elem) es)"
  using assms by (subst isArrayMatch.simps) (auto simp: strict_eq_length_value)

lemma isArrayMatch_no_elements:
  assumes "is_object pattern"
    and "get_prop pattern ''length'' = Undefined \<or> get_prop pattern ''length'' = length_value value"
    and "get_prop pattern ''elements'' = Undefined"
  shows "isArrayMatch value pattern = Inr True"
  using assms by (subst isArrayMatch.simps) (auto simp: strict_eq_length_value)

lemma isArrayMatch_prefix:
  assumes "is_object pattern"
    and "get_prop pattern ''length'' = Undefined \<or> get_prop pattern ''length'' = length_value value"
    and "get_prop pattern ''elements'' = Arr r es"
    and "length es \<le> length value"
  shows "(isArrayMatch value pattern = Inr True) =
           (\<forall>i<length es. isDeepMatch (value ! i) (es ! i) = Inr True)"
proof -
  have "isArrayMatch value pattern = every (\<lambda>elem i. isDeepMatch (at_index value i) elem) es"
    using assms by (simp add: isArrayMatch_elements)
  then have "(isArrayMatch value pattern = Inr True) =
               (\<forall>i<length es. isDeepMatch (at_index value i) (es ! i) = Inr True)"
    by (simp only: every_True_index)
  also have "\<dots> = (\<forall>i<length es. isDeepMatch (value ! i) (es ! i) = Inr True)"
    using assms(4) by (auto simp: at_index_def)
  finally show ?thesis .
qed

section \<open>The first satisfied clause wins\<close>

text \<open>
  Claim C1. Take any session \<open>m\<close> and any sequence of calls of the six clause methods
  \<open>with\<close>, \<open>withShape\<close>, \<open>withArray\<close>, \<open>withAll\<close>, \<open>withAny\<close> and \<open>withInstance\<close>. On a
  resolved session each of them returns the session as it is, whatever its predicate
  would do, so its predicate is evaluated only while the session is unresolved. On an
  unresolved session, if every predicate is false nothing happens; if the clause \<open>c\<close> is
  the first whose predicate is not false and its predicate is true, the chain ends in
  the session where exactly the handler of \<open>c\<close> has been called on the subject and
  \<open>matched\<close> is true; if that predicate throws, the chain stops there with no handler
  called. In every case the chain calls at most one handler.
\<close>

theorem first_satisfied_clause_fires:
  fixes m :: "'h Match"
  shows
  "(matched m \<longrightarrow> apply_clause c m = Inr m \<and> chain (map Clause cs) m = (m, None)) \<and>
   (\<not> matched m \<and> (\<forall>c'\<in>set cs. clause_pred c' (value' m) = Inr False) \<longrightarrow>
      chain (map Clause cs) m = (m, None)) \<and>
   (\<not> matched m \<and> (\<forall>c'\<in>set pre. clause_pred c' (value' m) = Inr False) \<and>
      clause_pred c (value' m) = Inr True \<longrightarrow>
      chain (map Clause (pre @ c # post)) m = (fired (handler_of c) m, None) \<and>
      matched (fired (handler_of c) m)) \<and>
   (\<not> matched m \<and> (\<forall>c'\<in>set pre. clause_pred c' (value' m) = Inr False) \<and>
      clause_pred c (value' m) = Inl e \<longrightarrow>
      chain (map Clause (pre @ c # post)) m = (m, Some e)) \<and>
   (\<exists>hs. invoked (fst (chain (map Clause cs) m)) = invoked m @ hs \<and> length hs \<le> 1)"
proof (intro conjI impI)
  show "\<exists>hs. invoked (fst (chain (map Clause cs) m)) = invoked m @ hs \<and> length hs \<le> 1"
    by (rule chain_clauses_at_most_one)
next
  assume "matched m"
  then show "apply_clause c m = Inr m" by (rule apply_clause_matched)
next
  assume "matched m"
  then show "chain (map Clause cs) m = (m, None)" by (rule chain_clauses_matched)
next
  assume "\<not> matched m \<and> (\<forall>c'\<in>set cs. clause_pred c' (value' m) = Inr False)"
  then show "chain (map Clause cs) m = (m, None)" by (simp add: chain_clauses_False)
next
  assume a: "\<not> matched m \<and> (\<forall>c'\<in>set pre. clause_pred c' (value' m) = Inr False) \<and>
      clause_pred c (value' m) = Inr True"
  then have "chain (map Clause (pre @ c # post)) m = chain (map Clause (c # post)) m"
    by (simp add: chain_append_False)
  with a show "chain (map Clause (pre @ c # post)) m = (fired (handler_of c) m, None)"
    by (simp add: apply_clause_True chain_clauses_matched fired_matched)
next
  show "matched (fired (handler_of c) m)" by (rule fired_matched)
next
  assume a: "\<not> matched m \<and> (\<forall>c'\<in>set pre. clause_pred c' (value' m) = Inr False) \<and>
      clause_pred c (value' m) = Inl e"
  then have "chain (map Clause (pre @ c # post)) m = chain (map Clause (c # post)) m"
    by (simp add: chain_append_False)
  with a show "chain (map Clause (pre @ c # post)) m = (m, Some e)"
    by (simp add: apply_clause_throws)
qed

theorem first_satisfied_clause_fires_witness:
  "\<not> matched (match (Num (Fin 7)) :: string Match) \<and>
   clause_pred (With (Num (Fin 1)) ''h1'') (Num (Fin 7)) = Inr False \<and>
   clause_pred (With (Num (Fin 7)) ''h2'') (Num (Fin 7)) = Inr True \<and>
   chain (map Clause ([With (Num (Fin 1)) ''h1''] @ With (Num (Fin 7)) ''h2''
                        # [WithAll [] ''h3'']))
     (match (Num (Fin 7))) =
     (\<lparr>value' = Num (Fin 7), matched = True, exhaustiveCheck = True,
       invoked = [(''h2'', Num (Fin 7))]\<rparr>, None) \<and>
   clause_pred (WithAll [\<lambda>v. Inl (Error ''boom'')] ''h4'') (Num (Fin 7)) = Inl (Error ''boom'') \<and>
   chain (map Clause ([With (Num (Fin 1)) ''h1''] @ WithAll [\<lambda>v. Inl (Error ''boom'')] ''h4''
                        # [With (Num (Fin 7)) ''h2'']))
     (match (Num (Fin 7))) = (match (Num (Fin 7)), Some (Error ''boom'')) \<and>
   matched (fired ''h0'' (match (Num (Fin 7)))) \<and>
   apply_clause (WithAll [\<lambda>v. Inl (Error ''boom'')] ''h4'') (fired ''h0'' (match (Num (Fin 7))))
     = Inr (fired ''h0'' (match (Num (Fin 7))))"
  using first_satisfied_clause_fires
    [of "match (Num (Fin 7))" "With (Num (Fin 7)) ''h2''" "[]"
        "[With (Num (Fin 1)) ''h1'']" "[WithAll [] ''h3'']" TypeError]
    first_satisfied_clause_fires
    [of "match (Num (Fin 7))" "WithAll [\<lambda>v. Inl (Error ''boom'')] ''h4''" "[]"
        "[With (Num (Fin 1)) ''h1'']" "[With (Num (Fin 7)) ''h2'']" "Error ''boom''"]
    first_satisfied_clause_fires
    [of "fired ''h0'' (match (Num (Fin 7)))" "WithAll [\<lambda>v. Inl (Error ''boom'')] ''h4''" "[]"
        "[]" "[]" TypeError]
  by (simp add: match_def fired_def every_def)

section \<open>The range clause\<close>

text \<open>
  Claim C2. \<open>withRange(start, end, fn)\<close> calls \<open>fn\<close> exactly when the subject is a number
  \<open>n\<close> with \<open>start \<le> n \<le> end\<close>, both bounds included, and it does so on every session,
  resolved or not, because it never reads \<open>matched\<close>. So
  \<open>match(5).with(5, h1).withRange(1, 10, h2).otherwise(h3)\<close> calls \<open>h1\<close> and then \<open>h2\<close>,
  and two range clauses whose ranges both hold the subject both fire.
\<close>

theorem withRange_fires_regardless_of_matched:
  fixes m :: "'h Match" and h1 h2 h3 :: 'h
  shows
  "((\<exists>n. value' m = Num n \<and> number_le start n \<and> number_le n end') \<longrightarrow>
      withRange start end' fn m = Inr (fired fn m)) \<and>
   (\<not> (\<exists>n. value' m = Num n \<and> number_le start n \<and> number_le n end') \<longrightarrow>
      withRange start end' fn m = Inr m) \<and>
   run (Num (Fin 5)) [Clause (With (Num (Fin 5)) h1), WithRange (Fin 1) (Fin 10) h2] h3 =
     (\<lparr>value' = Num (Fin 5), matched = True, exhaustiveCheck = True,
       invoked = [(h1, Num (Fin 5)), (h2, Num (Fin 5))]\<rparr>, None) \<and>
   run (Num (Fin 5)) [WithRange (Fin 1) (Fin 10) h1, WithRange (Fin 4) (Fin 6) h2] h3 =
     (\<lparr>value' = Num (Fin 5), matched = True, exhaustiveCheck = True,
       invoked = [(h1, Num (Fin 5)), (h2, Num (Fin 5))]\<rparr>, None)"
proof (intro conjI impI)
  assume "\<exists>n. value' m = Num n \<and> number_le start n \<and> number_le n end'"
  then show "withRange start end' fn m = Inr (fired fn m)"
    by (simp add: withRange_in in_range_iff)
next
  assume "\<not> (\<exists>n. value' m = Num n \<and> number_le start n \<and> number_le n end')"
  then show "withRange start end' fn m = Inr m"
    by (simp add: withRange_out in_range_iff)
next
  show "run (Num (Fin 5)) [Clause (With (Num (Fin 5)) h1), WithRange (Fin 1) (Fin 10) h2] h3 =
     (\<lparr>value' = Num (Fin 5), matched = True, exhaustiveCheck = True,
       invoked = [(h1, Num (Fin 5)), (h2, Num (Fin 5))]\<rparr>, None)"
    by (simp add: run_def match_def with'_def withRange_def when_then_def call_def
        otherwise_def)
next
  show "run (Num (Fin 5)) [WithRange (Fin 1) (Fin 10) h1, WithRange (Fin 4) (Fin 6) h2] h3 =
     (\<lparr>value' = Num (Fin 5), matched = True, exhaustiveCheck = True,
       invoked = [(h1, Num (Fin 5)), (h2, Num (Fin 5))]\<rparr>, None)"
    by (simp add: run_def match_def withRange_def when_then_def call_def otherwise_def)
qed

theorem withRange_fires_regardless_of_matched_witness:
  "value' (match (Num (Fin 3)) :: string Match) = Num (Fin 3) \<and>
   number_le (Fin 1) (Fin 3) \<and> number_le (Fin 3) (Fin 3) \<and>
   withRange (Fin 1) (Fin 3) ''h'' (match (Num (Fin 3))) =
     Inr \<lparr>value' = Num (Fin 3), matched = True, exhaustiveCheck = True,
          invoked = [(''h'', Num (Fin 3))]\<rparr> \<and>
   withRange (Fin 1) (Fin 3) ''h'' (match (Num (Fin 1))) =
     Inr \<lparr>value' = Num (Fin 1), matched = True, exhaustiveCheck = True,
          invoked = [(''h'', Num (Fin 1))]\<rparr> \<and>
   \<not> number_le (Fin 1) (Fin 0) \<and>
   withRange (Fin 1) (Fin 3) ''h'' (match (Num (Fin 0))) = Inr (match (Num (Fin 0))) \<and>
   \<not> number_le (Fin 4) (Fin 3) \<and>
   withRange (Fin 1) (Fin 3) ''h'' (match (Num (Fin 4))) = Inr (match (Num (Fin 4))) \<and>
   withRange (Fin 1) (Fin 3) ''h'' (match (Str ''2'')) = Inr (match (Str ''2''))"
  using withRange_fires_regardless_of_matched
          [of "match (Num (Fin 3))" "Fin 1" "Fin 3" "''h''" "''h1''" "''h2''" "''h3''"]
        withRange_fires_regardless_of_matched
          [of "match (Num (Fin 1))" "Fin 1" "Fin 3" "''h''" "''h1''" "''h2''" "''h3''"]
        withRange_fires_regardless_of_matched
          [of "match (Num (Fin 0))" "Fin 1" "Fin 3" "''h''" "''h1''" "''h2''" "''h3''"]
        withRange_fires_regardless_of_matched
          [of "match (Num (Fin 4)) :: string Match" "Fin 1" "Fin 3" "''h''" "''h1''" "''h2''" "''h3''"]
        withRange_fires_regardless_of_matched
          [of "match (Str ''2'') :: string Match" "Fin 1" "Fin 3" "''h''" "''h1''" "''h2''" "''h3''"]
  by (simp add: match_def fired_def)

section \<open>The fallback and the exhaustiveness error\<close>

text \<open>
  Claim C3. \<open>otherwise(fn)\<close> calls \<open>fn\<close> on the subject exactly when the session is not
  resolved, and the call does not set \<open>matched\<close>: on an unresolved session with
  \<open>exhaustiveCheck\<close> still true it calls the fallback and then throws the error
  \<open>Non-exhaustive pattern matching\<close>. On a resolved session it does nothing. So
  \<open>match(7).with(1, h).otherwise(fn)\<close> calls \<open>fn\<close> and throws.
\<close>

theorem otherwise_fallback_then_error:
  "(\<not> matched m \<longrightarrow>
      fst (otherwise fn m) = call fn (value' m) m \<and>
      \<not> matched (fst (otherwise fn m)) \<and>
      snd (otherwise fn m) =
        (if exhaustiveCheck m then Some (Error ''Non-exhaustive pattern matching'') else None)) \<and>
   (matched m \<longrightarrow> otherwise fn m = (m, None)) \<and>
   run (Num (Fin 7)) [Clause (With (Num (Fin 1)) h)] fn =
     (\<lparr>value' = Num (Fin 7), matched = False, exhaustiveCheck = True,
       invoked = [(fn, Num (Fin 7))]\<rparr>,
      Some (Error ''Non-exhaustive pattern matching''))"
  by (simp add: otherwise_def call_def Let_def run_def match_def with'_def when_then_def)

theorem otherwise_fallback_then_error_witness:
  "\<not> matched (match Null :: string Match) \<and>
   otherwise ''fb'' (match Null) =
     (\<lparr>value' = Null, matched = False, exhaustiveCheck = True, invoked = [(''fb'', Null)]\<rparr>,
      Some (Error ''Non-exhaustive pattern matching''))"
  using otherwise_fallback_then_error [of "match Null" "''fb''"]
  by (auto simp: match_def call_def prod_eq_iff)

section \<open>Shape patterns\<close>

text \<open>
  Claim C4, as stated, says that for every value and every object pattern \<open>isDeepMatch\<close>
  accepts exactly when the partial-shape criterion holds. The code departs from that
  in two places. An array value against a pattern with a \<open>length\<close> or an \<open>elements\<close> key
  is decided by \<open>isArrayMatch\<close>: the array \<open>[1, 2, 3]\<close> is accepted by the pattern
  \<open>{elements: [1]}\<close> although it has no key \<open>elements\<close>. A value that is not an object is
  compared with \<open>===\<close>: the number \<open>5\<close> is rejected by the empty pattern \<open>{}\<close> although
  the criterion holds of it vacuously.
\<close>

theorem array_pattern_bypasses_entries_counterexample:
  "isDeepMatch (Arr 1 [Num (Fin 1), Num (Fin 2), Num (Fin 3)])
     (Obj 2 [] [(''elements'', Arr 3 [Num (Fin 1)])]) = Inr True \<and>
   \<not> has_prop (Arr 1 [Num (Fin 1), Num (Fin 2), Num (Fin 3)]) ''elements'' \<and>
   \<not> entries_match (Arr 1 [Num (Fin 1), Num (Fin 2), Num (Fin 3)])
       (Obj 2 [] [(''elements'', Arr 3 [Num (Fin 1)])]) \<and>
   isDeepMatch (Num (Fin 5)) (Obj 4 [] []) = Inr False \<and>
   entries_match (Num (Fin 5)) (Obj 4 [] [])"
  by (simp add: entries_match_def isDeepMatch.simps isArrayMatch.simps isArrayPattern_def
      every_def at_index_def array_index_def digit_of_def)

text \<open>
  Claim C4, amended. For an object pattern: a value that is not an object (a primitive
  or \<open>null\<close>) is rejected; an array value against a pattern with a \<open>length\<close> or an
  \<open>elements\<close> key is decided by \<open>isArrayMatch\<close>; for every other object or array
  value, \<open>isDeepMatch\<close> accepts exactly when every entry of the pattern names a key that
  exists in the value and the value at that key deep-matches the sub-pattern, so keys
  of the value that the pattern does not name are ignored, and the empty pattern \<open>{}\<close>
  accepts every object and every array.
\<close>

theorem isDeepMatch_shape_of_composite:
  "is_object pattern \<Longrightarrow>
     (\<not> is_object value \<longrightarrow> isDeepMatch value pattern = Inr False) \<and>
     (is_array value \<and> isArrayPattern pattern \<longrightarrow>
        isDeepMatch value pattern = isArrayMatch (array_elems value) pattern) \<and>
     (is_object value \<and> \<not> (is_array value \<and> isArrayPattern pattern) \<longrightarrow>
        (isDeepMatch value pattern = Inr True) = entries_match value pattern) \<and>
     (is_object value \<and> entries pattern = [] \<and> \<not> is_array pattern \<longrightarrow>
        isDeepMatch value pattern = Inr True)"
proof (intro conjI impI)
  assume "is_object pattern" "\<not> is_object value"
  then show "isDeepMatch value pattern = Inr False"
    by (subst isDeepMatch.simps) (simp add: strict_eq_object_primitive)
next
  assume "is_array value \<and> isArrayPattern pattern"
  then show "isDeepMatch value pattern = isArrayMatch (array_elems value) pattern"
    by (subst isDeepMatch.simps) (cases "value", simp_all)
next
  assume "is_object pattern" "is_object value \<and> \<not> (is_array value \<and> isArrayPattern pattern)"
  then show "(isDeepMatch value pattern = Inr True) = entries_match value pattern"
    by (simp add: isDeepMatch_by_entries)
next
  assume p: "is_object pattern" and a: "is_object value \<and> entries pattern = [] \<and> \<not> is_array pattern"
  then have "\<not> isArrayPattern pattern"
    by (cases pattern) (auto simp: isArrayPattern_def)
  with p a have "(isDeepMatch value pattern = Inr True) = entries_match value pattern"
    by (simp add: isDeepMatch_by_entries)
  with a show "isDeepMatch value pattern = Inr True" by (simp add: entries_match_def)
qed

theorem isDeepMatch_shape_of_composite_witness:
  "is_object (Obj 2 [] [(''type'', Str ''user'')]) \<and>
   is_object (Obj 1 [] [(''type'', Str ''user''), (''name'', Str ''Ann''), (''age'', Num (Fin 30))]) \<and>
   \<not> is_array (Obj 1 [] [(''type'', Str ''user''), (''name'', Str ''Ann''), (''age'', Num (Fin 30))]) \<and>
   entries_match
     (Obj 1 [] [(''type'', Str ''user''), (''name'', Str ''Ann''), (''age'', Num (Fin 30))])
     (Obj 2 [] [(''type'', Str ''user'')]) \<and>
   isDeepMatch
     (Obj 1 [] [(''type'', Str ''user''), (''name'', Str ''Ann''), (''age'', Num (Fin 30))])
     (Obj 2 [] [(''type'', Str ''user'')]) = Inr True \<and>
   \<not> entries_match
     (Obj 1 [] [(''type'', Str ''user''), (''name'', Str ''Ann''), (''age'', Num (Fin 30))])
     (Obj 3 [] [(''type'', Str ''admin'')]) \<and>
   isDeepMatch
     (Obj 1 [] [(''type'', Str ''user''), (''name'', Str ''Ann''), (''age'', Num (Fin 30))])
     (Obj 3 [] [(''type'', Str ''admin'')]) \<noteq> Inr True"
  using isDeepMatch_shape_of_composite
          [of "Obj 2 [] [(''type'', Str ''user'')]"
              "Obj 1 [] [(''type'', Str ''user''), (''name'', Str ''Ann''), (''age'', Num (Fin 30))]"]
        isDeepMatch_shape_of_composite
          [of "Obj 3 [] [(''type'', Str ''admin'')]"
              "Obj 1 [] [(''type'', Str ''user''), (''name'', Str ''Ann''), (''age'', Num (Fin 30))]"]
  by (simp add: entries_match_def isDeepMatch.simps)

section \<open>Array patterns\<close>

text \<open>
  Claim C5. For an array \<open>value\<close> and a pattern object, \<open>isArrayMatch\<close> goes through the
  pattern's constraints in order. If the pattern has a \<open>length\<close> and it differs from
  \<open>value.length\<close>, it rejects. Otherwise, if the pattern has an array of \<open>elements\<close>, it
  rejects when the value is shorter than that array, and else accepts exactly when
  every pattern element deep-matches the value's element at the same index; what the
  value holds beyond those indices does not matter. Otherwise, with no \<open>elements\<close>, it
  accepts. So \<open>[1, 2, 3]\<close> matches \<open>{length: 3, elements: [1, 2, 3]}\<close> and \<open>{length: 3}\<close>,
  and \<open>[1, 2, 3, 4]\<close> does not match \<open>{length: 3}\<close> but matches \<open>{elements: [1, 2]}\<close>.
\<close>

theorem isArrayMatch_length_then_prefix:
  assumes "is_object pattern"
  shows
  "(get_prop pattern ''length'' \<noteq> Undefined \<and>
    get_prop pattern ''length'' \<noteq> length_value value \<longrightarrow>
      isArrayMatch value pattern = Inr False) \<and>
   ((get_prop pattern ''length'' = Undefined \<or>
     get_prop pattern ''length'' = length_value value) \<and>
    get_prop pattern ''elements'' = Arr r es \<longrightarrow>
      (length value < length es \<longrightarrow> isArrayMatch value pattern = Inr False) \<and>
      (length es \<le> length value \<longrightarrow>
         (isArrayMatch value pattern = Inr True) =
           (\<forall>i<length es. isDeepMatch (value ! i) (es ! i) = Inr True))) \<and>
   (get_prop pattern ''length'' = Undefined \<and>
    get_prop pattern ''elements'' = Arr r es \<and> length es \<le> length value \<longrightarrow>
      (isArrayMatch (value @ extra) pattern = Inr True) =
        (isArrayMatch value pattern = Inr True)) \<and>
   ((get_prop pattern ''length'' = Undefined \<or>
     get_prop pattern ''length'' = length_value value) \<and>
    get_prop pattern ''elements'' = Undefined \<longrightarrow>
      isArrayMatch value pattern = Inr True)"
proof (intro conjI impI)
  assume "get_prop pattern ''length'' \<noteq> Undefined \<and>
          get_prop pattern ''length'' \<noteq> length_value value"
  with assms show "isArrayMatch value pattern = Inr False"
    by (simp add: isArrayMatch_length_differs)
next
  assume "(get_prop pattern ''length'' = Undefined \<or>
           get_prop pattern ''length'' = length_value value) \<and>
          get_prop pattern ''elements'' = Arr r es"
    and "length value < length es"
  with assms show "isArrayMatch value pattern = Inr False"
    by (simp add: isArrayMatch_elements)
next
  assume "(get_prop pattern ''length'' = Undefined \<or>
           get_prop pattern ''length'' = length_value value) \<and>
          get_prop pattern ''elements'' = Arr r es"
    and "length es \<le> length value"
  with assms show "(isArrayMatch value pattern = Inr True) =
           (\<forall>i<length es. isDeepMatch (value ! i) (es ! i) = Inr True)"
    by (simp add: isArrayMatch_prefix)
next
  assume a: "get_prop pattern ''length'' = Undefined \<and>
          get_prop pattern ''elements'' = Arr r es \<and> length es \<le> length value"
  with assms have
    "(isArrayMatch value pattern = Inr True) =
       (\<forall>i<length es. isDeepMatch (value ! i) (es ! i) = Inr True)"
    by (simp add: isArrayMatch_prefix)
  moreover from a assms have
    "(isArrayMatch (value @ extra) pattern = Inr True) =
       (\<forall>i<length es. isDeepMatch ((value @ extra) ! i) (es ! i) = Inr True)"
    by (simp add: isArrayMatch_prefix)
  moreover from a have "\<forall>i<length es. (value @ extra) ! i = value ! i"
    by (simp add: nth_append)
  ultimately show "(isArrayMatch (value @ extra) pattern = Inr True) =
        (isArrayMatch value pattern = Inr True)"
    by simp
next
  assume "(get_prop pattern ''length'' = Undefined \<or>
           get_prop pattern ''length'' = length_value value) \<and>
          get_prop pattern ''elements'' = Undefined"
  with assms show "isArrayMatch value pattern = Inr True"
    by (simp add: isArrayMatch_no_elements)
qed

theorem isArrayMatch_length_then_prefix_witness:
  "is_object (Obj 9 [] [(''length'', Num (Fin 3))]) \<and>
   get_prop (Obj 9 [] [(''length'', Num (Fin 3))]) ''length'' \<noteq> Undefined \<and>
   get_prop (Obj 9 [] [(''length'', Num (Fin 3))]) ''length''
     \<noteq> length_value [Num (Fin 1), Num (Fin 2), Num (Fin 3), Num (Fin 4)] \<and>
   isArrayMatch [Num (Fin 1), Num (Fin 2), Num (Fin 3), Num (Fin 4)]
     (Obj 9 [] [(''length'', Num (Fin 3))]) = Inr False \<and>
   get_prop (Obj 9 [] [(''length'', Num (Fin 3))]) ''length''
     = length_value [Num (Fin 1), Num (Fin 2), Num (Fin 3)] \<and>
   get_prop (Obj 9 [] [(''length'', Num (Fin 3))]) ''elements'' = Undefined \<and>
   isArrayMatch [Num (Fin 1), Num (Fin 2), Num (Fin 3)]
     (Obj 9 [] [(''length'', Num (Fin 3))]) = Inr True \<and>
   is_object (Obj 8 [] [(''elements'', Arr 7 [Num (Fin 1), Num (Fin 2)])]) \<and>
   get_prop (Obj 8 [] [(''elements'', Arr 7 [Num (Fin 1), Num (Fin 2)])]) ''length'' = Undefined \<and>
   get_prop (Obj 8 [] [(''elements'', Arr 7 [Num (Fin 1), Num (Fin 2)])]) ''elements''
     = Arr 7 [Num (Fin 1), Num (Fin 2)] \<and>
   isArrayMatch [Num (Fin 1), Num (Fin 2), Num (Fin 3), Num (Fin 4)]
     (Obj 8 [] [(''elements'', Arr 7 [Num (Fin 1), Num (Fin 2)])]) = Inr True \<and>
   isArrayMatch [Num (Fin 1)]
     (Obj 8 [] [(''elements'', Arr 7 [Num (Fin 1), Num (Fin 2)])]) = Inr False \<and>
   isArrayMatch [Num (Fin 1), Num (Fin 2), Num (Fin 3)]
     (Obj 6 [] [(''length'', Num (Fin 3)),
                (''elements'', Arr 5 [Num (Fin 1), Num (Fin 2), Num (Fin 3)])]) = Inr True"
proof -
  let ?v3 = "[Num (Fin 1), Num (Fin 2), Num (Fin 3)]"
  let ?v4 = "[Num (Fin 1), Num (Fin 2), Num (Fin 3), Num (Fin 4)]"
  let ?len3 = "Obj 9 [] [(''length'', Num (Fin 3))]"
  let ?el2 = "Obj 8 [] [(''elements'', Arr 7 [Num (Fin 1), Num (Fin 2)])]"
  let ?both = "Obj 6 [] [(''length'', Num (Fin 3)),
                (''elements'', Arr 5 [Num (Fin 1), Num (Fin 2), Num (Fin 3)])]"
  have deep: "\<And>x y. isDeepMatch (Num (Fin x)) (Num (Fin y)) = Inr (x = y)"
    by (simp add: isDeepMatch.simps)
  have a: "isArrayMatch ?v4 ?len3 = Inr False"
    using isArrayMatch_length_then_prefix [of ?len3 ?v4] by (simp add: length_value_def)
  have b: "isArrayMatch ?v3 ?len3 = Inr True"
    using isArrayMatch_length_then_prefix [of ?len3 ?v3] by (simp add: length_value_def)
  have c: "isArrayMatch ?v4 ?el2 = Inr True"
    using isArrayMatch_length_then_prefix [of ?el2 ?v4 7 "[Num (Fin 1), Num (Fin 2)]"]
    by (simp add: deep less_Suc_eq)
  have d: "isArrayMatch [Num (Fin 1)] ?el2 = Inr False"
    using isArrayMatch_length_then_prefix [of ?el2 "[Num (Fin 1)]" 7 "[Num (Fin 1), Num (Fin 2)]"]
    by simp
  have e: "isArrayMatch ?v3 ?both = Inr True"
    using isArrayMatch_length_then_prefix [of ?both ?v3 5 ?v3]
    by (simp add: deep less_Suc_eq length_value_def)
  from a b c d e show ?thesis by (simp add: length_value_def)
qed

section \<open>Disabling the exhaustiveness check\<close>

text \<open>
  Claim C6. If \<open>nonExhaustive()\<close> is among the calls of a chain that reaches its end,
  the final \<open>otherwise(fb)\<close> throws nothing, and it still calls the fallback when no
  clause has matched. So \<open>match(7).nonExhaustive().with(1, h).otherwise(fb)\<close> calls \<open>fb\<close>
  and returns.
\<close>

theorem nonExhaustive_suppresses_the_error:
  "NonExhaustive \<in> set cs \<Longrightarrow> chain cs m = (m', None) \<Longrightarrow>
     snd (otherwise fb m') = None \<and>
     (\<not> matched m' \<longrightarrow> invoked (fst (otherwise fb m')) = invoked m' @ [(fb, value' m)])"
  using chain_nonExhaustive [of cs m m'] chain_frame [of cs m m' None]
  by (simp add: otherwise_def Let_def call_def)

theorem nonExhaustive_suppresses_the_error_witness:
  "NonExhaustive \<in> set [NonExhaustive, Clause (With (Num (Fin 1)) ''h'')] \<and>
   chain [NonExhaustive, Clause (With (Num (Fin 1)) ''h'')] (match (Num (Fin 7))) =
     (\<lparr>value' = Num (Fin 7), matched = False, exhaustiveCheck = False, invoked = []\<rparr>, None) \<and>
   otherwise ''fb''
     \<lparr>value' = Num (Fin 7), matched = False, exhaustiveCheck = False, invoked = []\<rparr> =
     (\<lparr>value' = Num (Fin 7), matched = False, exhaustiveCheck = False,
       invoked = [(''fb'', Num (Fin 7))]\<rparr>, None) \<and>
   run (Num (Fin 7)) [NonExhaustive, Clause (With (Num (Fin 1)) ''h'')] ''fb'' =
     (\<lparr>value' = Num (Fin 7), matched = False, exhaustiveCheck = False,
       invoked = [(''fb'', Num (Fin 7))]\<rparr>, None)"
  using nonExhaustive_suppresses_the_error
          [of "[NonExhaustive, Clause (With (Num (Fin 1)) ''h'')]" "match (Num (Fin 7))"
              "\<lparr>value' = Num (Fin 7), matched = False, exhaustiveCheck = False, invoked = []\<rparr>"
              "''fb''"]
  by (simp add: match_def nonExhaustive_def with'_def when_then_def run_def otherwise_def
      call_def)

section \<open>A range clause that fires resolves the session\<close>

text \<open>
  Claim C7. When a \<open>withRange\<close> clause fires, on a resolved session or not, it sets
  \<open>matched\<close>. Whatever calls follow, none of them throws, the session stays resolved,
  the only handlers called after it are those of later range clauses whose bounds hold
  the subject, so no later clause of another kind fires, and \<open>otherwise\<close> neither calls
  the fallback nor throws.
\<close>

theorem fired_range_resolves_the_session:
  "in_range (value' m) start end' \<Longrightarrow> chain cs (fired fn m) = (m', r) \<Longrightarrow>
     withRange start end' fn m = Inr (fired fn m) \<and> matched (fired fn m) \<and>
     r = None \<and> matched m' \<and>
     invoked m' = invoked m @ (fn, value' m) # map (\<lambda>h. (h, value' m)) (range_hits cs (value' m)) \<and>
     otherwise fb m' = (m', None)"
  using chain_matched [of "fired fn m" cs m' r] withRange_in [of m start end' fn]
  by (simp add: fired_def otherwise_matched)

theorem fired_range_resolves_the_session_witness:
  "in_range (value' (match (Num (Fin 5)) :: string Match)) (Fin 1) (Fin 10) \<and>
   chain [Clause (With (Num (Fin 5)) ''h1''), WithRange (Fin 4) (Fin 6) ''r2'',
          Clause (WithAll [] ''h2''), WithRange (Fin 6) (Fin 9) ''r3'']
     (fired ''r1'' (match (Num (Fin 5)))) =
     (\<lparr>value' = Num (Fin 5), matched = True, exhaustiveCheck = True,
       invoked = [(''r1'', Num (Fin 5)), (''r2'', Num (Fin 5))]\<rparr>, None) \<and>
   withRange (Fin 1) (Fin 10) ''r1'' (match (Num (Fin 5))) = Inr (fired ''r1'' (match (Num (Fin 5)))) \<and>
   otherwise ''fb''
     \<lparr>value' = Num (Fin 5), matched = True, exhaustiveCheck = True,
       invoked = [(''r1'', Num (Fin 5)), (''r2'', Num (Fin 5))]\<rparr> =
     (\<lparr>value' = Num (Fin 5), matched = True, exhaustiveCheck = True,
       invoked = [(''r1'', Num (Fin 5)), (''r2'', Num (Fin 5))]\<rparr>, None)"
  using fired_range_resolves_the_session
          [of "match (Num (Fin 5))" "Fin 1" "Fin 10"
              "[Clause (With (Num (Fin 5)) ''h1''), WithRange (Fin 4) (Fin 6) ''r2'',
                Clause (WithAll [] ''h2''), WithRange (Fin 6) (Fin 9) ''r3'']" "''r1''"
              "\<lparr>value' = Num (Fin 5), matched = True, exhaustiveCheck = True,
                 invoked = [(''r1'', Num (Fin 5)), (''r2'', Num (Fin 5))]\<rparr>" None "''fb''"]
  by (simp add: match_def fired_def with'_def withAll_def withRange_def when_then_def
      and_also_def call_def)

section \<open>Empty predicate lists\<close>

text \<open>
  Claim C8. \<open>withAll([], fn)\<close> fires on every subject when the session is not yet
  resolved (and does nothing on a resolved one); \<open>withAny([], fn)\<close> never fires.
\<close>

theorem empty_withAll_fires_empty_withAny_does_not:
  "(\<not> matched m \<longrightarrow> withAll [] fn m = Inr (fired fn m)) \<and>
   (matched m \<longrightarrow> withAll [] fn m = Inr m) \<and>
   withAny [] fn m = Inr m"
  by (simp add: withAll_def withAny_def when_then_def and_also_def every_def some_def
      fired_def call_def)

theorem empty_withAll_fires_empty_withAny_does_not_witness:
  "\<not> matched (match (Str ''x'') :: string Match) \<and>
   withAll [] ''h'' (match (Str ''x'')) =
     Inr \<lparr>value' = Str ''x'', matched = True, exhaustiveCheck = True,
          invoked = [(''h'', Str ''x'')]\<rparr> \<and>
   withAny [] ''h'' (match (Str ''x'')) = Inr (match (Str ''x''))"
  using empty_withAll_fires_empty_withAny_does_not [of "match (Str ''x'')" "''h''"]
  by (simp add: match_def fired_def)

section \<open>NaN as a literal\<close>

text \<open>
  Claim C9. When the subject is \<open>NaN\<close>, \<open>with(NaN, fn)\<close> leaves the session as it is and
  calls no handler, because \<open>NaN === NaN\<close> is false.
\<close>

theorem NaN_literal_never_fires:
  "value' m = Num NaN \<Longrightarrow> with' (Num NaN) fn m = Inr m"
  by (simp add: with'_def when_then_def)

theorem NaN_literal_never_fires_witness:
  "value' (match (Num NaN) :: string Match) = Num NaN \<and>
   with' (Num NaN) ''h'' (match (Num NaN)) = Inr (match (Num NaN))"
  using NaN_literal_never_fires [of "match (Num NaN)" "''h''"]
  by (simp add: match_def)

section \<open>What a call leaves unchanged\<close>

text \<open>
  Claim C10. A clause call whose condition does not hold returns the session it was
  given: no handler is called and \<open>value\<close>, \<open>matched\<close> and \<open>exhaustiveCheck\<close> are as
  before; a clause call that throws leaves the session as it was too. Every call that
  returns gives back the session itself, the session after its handler fired, or the
  session with \<open>exhaustiveCheck\<close> cleared; none changes the subject, and none takes a
  resolved session back to unresolved. \<open>otherwise\<close> changes none of the three fields.
\<close>

theorem unsatisfied_clause_changes_nothing:
  "(matched m \<or> clause_pred c (value' m) = Inr False \<longrightarrow> apply_clause c m = Inr m) \<and>
   (apply_clause c m = Inl e \<longrightarrow> chain [Clause c] m = (m, Some e)) \<and>
   (\<not> in_range (value' m) start end' \<longrightarrow> withRange start end' fn m = Inr m) \<and>
   (apply_step s m = Inr m' \<longrightarrow>
      (m' = m \<or> (\<exists>h. m' = fired h m) \<or> m' = nonExhaustive m) \<and>
      value' m' = value' m \<and> (matched m \<longrightarrow> matched m')) \<and>
   value' (fst (otherwise fn m)) = value' m \<and>
   matched (fst (otherwise fn m)) = matched m \<and>
   exhaustiveCheck (fst (otherwise fn m)) = exhaustiveCheck m"
proof (intro conjI impI)
  assume "matched m \<or> clause_pred c (value' m) = Inr False"
  then show "apply_clause c m = Inr m"
    using apply_clause_matched [of m c] apply_clause_False [of c m] by blast
next
  assume "apply_clause c m = Inl e"
  then show "chain [Clause c] m = (m, Some e)" by simp
next
  assume "\<not> in_range (value' m) start end'"
  then show "withRange start end' fn m = Inr m" by (rule withRange_out)
next
  assume "apply_step s m = Inr m'"
  then show "m' = m \<or> (\<exists>h. m' = fired h m) \<or> m' = nonExhaustive m"
    by (rule apply_step_result)
next
  assume "apply_step s m = Inr m'"
  then show "value' m' = value' m" by (rule apply_step_frame)
next
  assume "apply_step s m = Inr m'" and "matched m"
  then show "matched m'" by (rule apply_step_frame)
qed (simp_all add: otherwise_def Let_def call_def)

theorem unsatisfied_clause_changes_nothing_witness:
  "clause_pred (With (Num (Fin 1)) ''h'') (value' (match (Num (Fin 7)) :: string Match)) = Inr False \<and>
   apply_clause (With (Num (Fin 1)) ''h'') (match (Num (Fin 7))) = Inr (match (Num (Fin 7))) \<and>
   \<not> in_range (value' (match (Num (Fin 7)) :: string Match)) (Fin 1) (Fin 3) \<and>
   withRange (Fin 1) (Fin 3) ''h'' (match (Num (Fin 7))) = Inr (match (Num (Fin 7))) \<and>
   apply_step NonExhaustive (match (Num (Fin 7)) :: string Match)
     = Inr (nonExhaustive (match (Num (Fin 7)))) \<and>
   value' (nonExhaustive (match (Num (Fin 7)) :: string Match)) = Num (Fin 7) \<and>
   value' (fst (otherwise ''h'' (match (Num (Fin 7))))) = Num (Fin 7)"
  using unsatisfied_clause_changes_nothing
          [of "match (Num (Fin 7))" "With (Num (Fin 1)) ''h''" TypeError "Fin 1" "Fin 3" "''h''"
              NonExhaustive "nonExhaustive (match (Num (Fin 7)))"]
  by (simp add: match_def)

end
